theory Spec2Isabelle
  imports Complex_Main
begin

section \<open>The mesh converter \<^verbatim>\<open>tools/mesh_converter.py\<close>\<close>

text \<open>
  The script reads a Wavefront OBJ file line by line, accumulates three sequences
  (vertices, indices, UVs) in a dictionary and writes the dictionary as JSON.

  Modelling decisions:
  \<^item> a Python \<open>str\<close> is a \<open>string\<close>; every \<open>char\<close> stands for one code point below 256;
  \<^item> an exception is a value of \<open>py_error\<close>; a function that can raise returns
    \<open>py_error + 'a\<close>, with \<open>Inl\<close> for the exception;
  \<^item> the dictionary \<open>parsed\<close> has four fixed keys with values of different types and is
    the record \<open>mesh_document\<close>; the small dictionaries \<open>{"X": x, "Y": y, "Z": z}\<close> are
    association lists in insertion order;
  \<^item> a Python \<open>float\<close> is the value \<open>pyfloat\<close>: \<open>Finite q\<close> stands for the double nearest
    to the rational \<open>q\<close> that the literal denotes. The rounding to a double (and with it
    overflow to infinity and the sign of zero) is left out;
  \<^item> the file system is an environment that is only read, and everything the script
    does to the outside is an entry of an effect trace; a file is given by its decoded
    text, and the standard output takes every line that is printed;
  \<^item> the interpreter's limit on the digits of an integer that is converted from or to a
    string (\<open>sys.get_int_max_str_digits()\<close>, 4300 unless configured otherwise) is part of
    the environment, and the functions that convert take it as their first argument.
\<close>

subsection \<open>Exceptions\<close>

datatype py_error =
    UsageException    \<comment> \<open>\<open>Exception("This script need two parameters ...")\<close>\<close>
  | NameError         \<comment> \<open>\<open>NameError("This script only accepts .obj")\<close>\<close>
  | ValueError        \<comment> \<open>raised by \<open>float(s)\<close> and \<open>int(s)\<close>\<close>
  | IndexError        \<comment> \<open>raised by \<open>xs[i]\<close> out of range\<close>
  | OSError           \<comment> \<open>raised by \<open>open\<close>\<close>

subsection \<open>Built-in string operations\<close>

text \<open>The characters \<open>str.isspace\<close> accepts, among the code points below 256.\<close>

definition whitespace :: "char list" where
  "whitespace =
     [CHR 0x09, CHR 0x0A, CHR 0x0B, CHR 0x0C, CHR 0x0D,
      CHR 0x1C, CHR 0x1D, CHR 0x1E, CHR 0x1F, CHR 0x20, CHR 0x85, CHR 0xA0]"

definition isspace :: "char \<Rightarrow> bool" where
  "isspace c = (c \<in> set whitespace)"

text \<open>\<open>s.strip()\<close>: leading and trailing whitespace removed.\<close>

definition strip :: "string \<Rightarrow> string" where
  "strip s = rev (dropWhile isspace (rev (dropWhile isspace s)))"

text \<open>
  \<open>s.split(sep)\<close> for a separator of one character: the pieces between the
  separators, empty pieces included; the result is never empty.
\<close>

fun str_split :: "char \<Rightarrow> string \<Rightarrow> string list" where
  "str_split sep [] = [[]]"
| "str_split sep (c # cs) =
     (if c = sep then [] # str_split sep cs
      else (case str_split sep cs of
              [] \<Rightarrow> [[c]]
            | w # ws \<Rightarrow> (c # w) # ws))"

text \<open>\<open>xs[i]\<close> for a non-negative constant \<open>i\<close>.\<close>

definition py_index :: "'a list \<Rightarrow> nat \<Rightarrow> py_error + 'a" where
  "py_index xs i = (if i < length xs then Inr (xs ! i) else Inl IndexError)"

subsection \<open>The built-ins \<open>int\<close> and \<open>float\<close> on strings\<close>

text \<open>
  \<open>int\<close> and \<open>float\<close> first turn every whitespace character that is not ASCII into a
  space and then skip, at both ends, the whitespace of C's \<open>isspace\<close>. So they skip
  fewer characters than \<open>str.strip\<close>: the separators \<open>0x1C\<close> to \<open>0x1F\<close> are
  whitespace for \<open>str.strip\<close> but make \<open>int\<close> and \<open>float\<close> raise.
\<close>

definition numeric_whitespace :: "char list" where
  "numeric_whitespace =
     [CHR 0x09, CHR 0x0A, CHR 0x0B, CHR 0x0C, CHR 0x0D, CHR 0x20, CHR 0x85, CHR 0xA0]"

definition numeric_strip :: "string \<Rightarrow> string" where
  "numeric_strip s =
     rev (dropWhile (\<lambda>c. c \<in> set numeric_whitespace)
       (rev (dropWhile (\<lambda>c. c \<in> set numeric_whitespace) s)))"

definition is_digit :: "char \<Rightarrow> bool" where
  "is_digit c = (48 \<le> (of_char c :: nat) \<and> (of_char c :: nat) \<le> 57)"

definition digit_val :: "char \<Rightarrow> nat" where
  "digit_val c = of_char c - 48"

text \<open>
  The longest prefix of the form \<open>digit (["_"] digit)*\<close> continued: the digits read (the
  underscores dropped) and the rest of the string. Called behind a first digit.
\<close>

fun digit_run :: "string \<Rightarrow> string \<times> string" where
  "digit_run [] = ([], [])"
| "digit_run [c] = (if is_digit c then ([c], []) else ([], [c]))"
| "digit_run (c # d # cs) =
     (if is_digit c then (case digit_run (d # cs) of (ds, r) \<Rightarrow> (c # ds, r))
      else if c = CHR ''_'' \<and> is_digit d then digit_run (d # cs)
      else ([], c # d # cs))"

text \<open>\<open>digitpart\<close> of the grammar: at least one digit, single underscores between digits.\<close>

definition digitpart :: "string \<Rightarrow> (string \<times> string) option" where
  "digitpart s =
     (case s of
        [] \<Rightarrow> None
      | c # cs \<Rightarrow> if is_digit c then Some (digit_run s) else None)"

definition digits_value :: "string \<Rightarrow> nat" where
  "digits_value ds = foldl (\<lambda>a c. 10 * a + digit_val c) 0 ds"

text \<open>An optional sign: whether it is \<open>-\<close>, and the rest.\<close>

definition sign_split :: "string \<Rightarrow> bool \<times> string" where
  "sign_split s =
     (case s of
        [] \<Rightarrow> (False, [])
      | c # cs \<Rightarrow>
          if c = CHR ''-'' then (True, cs)
          else if c = CHR ''+'' then (False, cs)
          else (False, s))"

text \<open>
  \<open>int(s)\<close> in base 10: whitespace skipped, an optional sign, then digits with single
  underscores between them and nothing else; anything else raises \<open>ValueError\<close>. So
  does a number of more than \<open>max_str_digits\<close> digits (the underscores and the sign not
  counted), when the limit is not 0; CPython looks at the limit only above 640 digits.
\<close>

definition py_int :: "nat \<Rightarrow> string \<Rightarrow> py_error + int" where
  "py_int max_str_digits s =
     (case sign_split (numeric_strip s) of
        (neg, u) \<Rightarrow>
          (case digitpart u of
             None \<Rightarrow> Inl ValueError
           | Some (ds, r) \<Rightarrow>
               if r \<noteq> [] then Inl ValueError
               else if 640 < length ds \<and> 0 < max_str_digits \<and> max_str_digits < length ds
                 then Inl ValueError
               else Inr (if neg then - int (digits_value ds) else int (digits_value ds))))"

datatype pyfloat = Finite rat | Infinity bool | NaN

definition ascii_lower :: "char \<Rightarrow> char" where
  "ascii_lower c =
     (case map_of (zip ''ABCDEFGHIJKLMNOPQRSTUVWXYZ'' ''abcdefghijklmnopqrstuvwxyz'') c of
        None \<Rightarrow> c
      | Some d \<Rightarrow> d)"

text \<open>
  \<open>number\<close> of the grammar, \<open>[digitpart] "." digitpart | digitpart ["."]\<close>: the digits
  before the point, the digits behind it, and the rest.
\<close>

definition number :: "string \<Rightarrow> (string \<times> string \<times> string) option" where
  "number s =
     (case digitpart s of
        Some (ip, r) \<Rightarrow>
          (case r of
             [] \<Rightarrow> Some (ip, [], [])
           | c # cs \<Rightarrow>
               if c = CHR ''.'' then
                 (case digitpart cs of
                    Some (fp, r') \<Rightarrow> Some (ip, fp, r')
                  | None \<Rightarrow> Some (ip, [], cs))
               else Some (ip, [], r))
      | None \<Rightarrow>
          (case s of
             [] \<Rightarrow> None
           | c # cs \<Rightarrow>
               if c = CHR ''.'' then
                 (case digitpart cs of
                    Some (fp, r') \<Rightarrow> Some ([], fp, r')
                  | None \<Rightarrow> None)
               else None))"

text \<open>
  \<open>exponent\<close> of the grammar, \<open>("e" | "E") [sign] digitpart\<close>, up to the end of the
  string; no exponent is the exponent 0.
\<close>

definition exponent :: "string \<Rightarrow> int option" where
  "exponent s =
     (case s of
        [] \<Rightarrow> Some 0
      | c # cs \<Rightarrow>
          if c = CHR ''e'' \<or> c = CHR ''E'' then
            (case sign_split cs of
               (neg, u) \<Rightarrow>
                 (case digitpart u of
                    None \<Rightarrow> None
                  | Some (ds, r) \<Rightarrow>
                      if r \<noteq> [] then None
                      else Some (if neg then - int (digits_value ds) else int (digits_value ds))))
          else None)"

definition scale10 :: "rat \<Rightarrow> int \<Rightarrow> rat" where
  "scale10 q e = (if 0 \<le> e then q * 10 ^ nat e else q / 10 ^ nat (- e))"

text \<open>
  \<open>float(s)\<close>: whitespace skipped, an optional sign, then \<open>inf\<close>, \<open>infinity\<close> or \<open>nan\<close>
  in any case, or a decimal number with an optional exponent. Anything else raises
  \<open>ValueError\<close>.
\<close>

definition py_float :: "string \<Rightarrow> py_error + pyfloat" where
  "py_float s =
     (case sign_split (numeric_strip s) of
        (neg, u) \<Rightarrow>
          if map ascii_lower u = ''inf'' \<or> map ascii_lower u = ''infinity''
            then Inr (Infinity neg)
          else if map ascii_lower u = ''nan'' then Inr NaN
          else
            (case number u of
               None \<Rightarrow> Inl ValueError
             | Some (ip, fp, r) \<Rightarrow>
                 (case exponent r of
                    None \<Rightarrow> Inl ValueError
                  | Some e \<Rightarrow>
                      let m = of_nat (digits_value (ip @ fp)) :: rat;
                          q = scale10 m (e - int (length fp))
                      in Inr (Finite (if neg then - q else q)))))"

subsection \<open>The document and the three line parsers\<close>

record mesh_document =
  Vertices :: "(string \<times> pyfloat) list list"
  Indices :: "int list"
  UVs :: "(string \<times> pyfloat) list list"
  PrimitiveType :: int

definition VERT_NAME :: string where "VERT_NAME = ''v''"
definition UV_NAME :: string where "UV_NAME = ''vt''"
definition INDICES_NAME :: string where "INDICES_NAME = ''f''"

definition VALID_VAR :: "string list" where
  "VALID_VAR = [VERT_NAME, UV_NAME, INDICES_NAME]"

text \<open>\<open>float(pram[i])\<close>: the index is read first, then the string is converted.\<close>

definition float_at :: "string list \<Rightarrow> nat \<Rightarrow> py_error + pyfloat" where
  "float_at pram i =
     (case py_index pram i of
        Inl e \<Rightarrow> Inl e
      | Inr s \<Rightarrow> py_float s)"

definition parse_vert :: "string list \<Rightarrow> mesh_document \<Rightarrow> py_error + mesh_document" where
  "parse_vert pram parsed =
     (case float_at pram 0 of
        Inl e \<Rightarrow> Inl e
      | Inr x \<Rightarrow>
     (case float_at pram 1 of
        Inl e \<Rightarrow> Inl e
      | Inr y \<Rightarrow>
     (case float_at pram 2 of
        Inl e \<Rightarrow> Inl e
      | Inr z \<Rightarrow>
          Inr (parsed\<lparr>Vertices := Vertices parsed @ [[(''X'', x), (''Y'', y), (''Z'', z)]]\<rparr>))))"

definition parse_uv :: "string list \<Rightarrow> mesh_document \<Rightarrow> py_error + mesh_document" where
  "parse_uv pram parsed =
     (case float_at pram 0 of
        Inl e \<Rightarrow> Inl e
      | Inr u \<Rightarrow>
     (case float_at pram 1 of
        Inl e \<Rightarrow> Inl e
      | Inr v \<Rightarrow>
          Inr (parsed\<lparr>UVs := UVs parsed @ [[(''X'', u), (''Y'', v)]]\<rparr>)))"

text \<open>
  The loop of \<open>parse_indices\<close> over the tokens. An exception in the middle leaves the
  entries of the earlier tokens appended in Python; the exception ends the run, so the
  model returns the exception alone.
\<close>

fun parse_indices :: "nat \<Rightarrow> string list \<Rightarrow> mesh_document \<Rightarrow> py_error + mesh_document" where
  "parse_indices max_str_digits [] parsed = Inr parsed"
| "parse_indices max_str_digits (part # rest) parsed =
     (case py_index (str_split (CHR ''/'') part) 0 of
        Inl e \<Rightarrow> Inl e
      | Inr d0 \<Rightarrow>
          (case py_int max_str_digits d0 of
             Inl e \<Rightarrow> Inl e
           | Inr k \<Rightarrow>
               parse_indices max_str_digits rest (parsed\<lparr>Indices := Indices parsed @ [k - 1]\<rparr>)))"

subsection \<open>Reading the file and the loop of \<open>parse_mesh\<close>\<close>

text \<open>
  The file is opened in text mode with universal newlines: \<open>\r\n\<close> and a lone \<open>\r\<close> are
  read as \<open>\n\<close>. The flag says that the previous character was \<open>\r\<close>.
\<close>

fun translate_newlines :: "bool \<Rightarrow> string \<Rightarrow> string" where
  "translate_newlines prev_cr [] = []"
| "translate_newlines prev_cr (c # cs) =
     (if c = CHR 0x0D then CHR 0x0A # translate_newlines True cs
      else if c = CHR 0x0A then
        (if prev_cr then translate_newlines False cs
         else CHR 0x0A # translate_newlines False cs)
      else c # translate_newlines False cs)"

text \<open>
  The lines \<open>for line in f\<close> yields: each ends with its \<open>\n\<close>, but for a last line that
  has none; \<open>cur\<close> is the line read so far.
\<close>

fun lines_from :: "string \<Rightarrow> string \<Rightarrow> string list" where
  "lines_from cur [] = (if cur = [] then [] else [cur])"
| "lines_from cur (c # cs) =
     (if c = CHR 0x0A then (cur @ [c]) # lines_from [] cs
      else lines_from (cur @ [c]) cs)"

definition file_lines :: "string \<Rightarrow> string list" where
  "file_lines text = lines_from [] (translate_newlines False text)"

text \<open>The body of the loop \<open>for line in f\<close>, for one line.\<close>

definition loop_body :: "nat \<Rightarrow> string \<Rightarrow> mesh_document \<Rightarrow> py_error + mesh_document" where
  "loop_body max_str_digits line0 parsed =
     (let line = strip line0;
          sep = str_split (CHR '' '') line
      in case py_index sep 0 of
           Inl e \<Rightarrow> Inl e
         | Inr sep0 \<Rightarrow>
             if sep0 \<notin> set VALID_VAR then Inr parsed
             else
               let send = drop 1 sep
               in if sep0 = ''v'' then parse_vert send parsed
                  else if sep0 = ''vt'' then parse_uv send parsed
                  else if sep0 = ''f'' then parse_indices max_str_digits send parsed
                  else Inr parsed)"

fun parse_loop :: "nat \<Rightarrow> string list \<Rightarrow> mesh_document \<Rightarrow> py_error + mesh_document" where
  "parse_loop max_str_digits [] parsed = Inr parsed"
| "parse_loop max_str_digits (line # rest) parsed =
     (case loop_body max_str_digits line parsed of
        Inl e \<Rightarrow> Inl e
      | Inr parsed' \<Rightarrow> parse_loop max_str_digits rest parsed')"

subsection \<open>The outside world\<close>

text \<open>
  \<open>files\<close> gives the text of every file that can be opened for reading, \<open>writable\<close> says
  which paths can be opened for writing, \<open>int_max_str_digits\<close> is the interpreter's
  limit on integer conversions. An effect is one thing the script does to the
  outside: \<open>Open_read p\<close> and \<open>Open_write p\<close> are the calls of \<open>open\<close> (whether they
  succeed or not), \<open>Write_json p d\<close> is the write of \<open>json.dumps(d)\<close> to \<open>p\<close>, \<open>Print s\<close>
  a line on the standard output. The JSON text itself is not modelled.
\<close>

record environment =
  files :: "string \<rightharpoonup> string"
  writable :: "string \<Rightarrow> bool"
  int_max_str_digits :: nat

datatype effect =
    Open_read string
  | Open_write string
  | Write_json string mesh_document
  | Print string

text \<open>\<open>str(n)\<close> for a length.\<close>

fun str_nat :: "nat \<Rightarrow> string" where
  "str_nat n =
     (if n < 10 then [''0123456789'' ! n]
      else str_nat (n div 10) @ [''0123456789'' ! (n mod 10)])"

declare str_nat.simps [simp del]

definition parse_mesh :: "environment \<Rightarrow> string \<Rightarrow> (py_error + mesh_document) \<times> effect list" where
  "parse_mesh env path =
     (let parsed = \<lparr>Vertices = [], Indices = [], UVs = [], PrimitiveType = 4\<rparr>
      in case files env path of
           None \<Rightarrow> (Inl OSError, [Open_read path])
         | Some text \<Rightarrow>
             (case parse_loop (int_max_str_digits env) (file_lines text) parsed of
                Inl e \<Rightarrow> (Inl e, [Open_read path])
              | Inr parsed' \<Rightarrow>
                  (Inr parsed',
                   [Open_read path,
                    Print (''Parsed '' @ str_nat (length (Vertices parsed')) @ '' vertices''),
                    Print (''Parsed '' @ str_nat (length (Indices parsed')) @ '' indices''),
                    Print (''Parsed '' @ str_nat (length (UVs parsed')) @ '' UVs'')])))"

subsection \<open>The suffixes of a path and the script's entry point\<close>

text \<open>
  \<open>pathlib.Path(p).name\<close> for a POSIX path: the last component that is neither empty nor
  \<open>.\<close>, and the empty string when there is none.
\<close>

definition path_name :: "string \<Rightarrow> string" where
  "path_name p =
     (case filter (\<lambda>c. c \<noteq> [] \<and> c \<noteq> ''.'') (str_split (CHR ''/'') p) of
        [] \<Rightarrow> []
      | c # cs \<Rightarrow> last (c # cs))"

text \<open>
  \<open>pathlib.Path(p).suffixes\<close>, as CPython 3.12 computes it: none when the name ends
  with a dot; else the leading dots of the name are dropped and every piece behind a dot
  is a suffix. (The script needs Python 3.12 or later for its f-strings.)
\<close>

definition suffixes :: "string \<Rightarrow> string list" where
  "suffixes p =
     (let name = path_name p
      in if name \<noteq> [] \<and> last name = CHR ''.'' then []
         else map (\<lambda>s. CHR ''.'' # s)
                (drop 1 (str_split (CHR ''.'') (dropWhile (\<lambda>c. c = CHR ''.'') name))))"

text \<open>\<open>xs[-1]\<close>.\<close>

definition py_last :: "'a list \<Rightarrow> py_error + 'a" where
  "py_last xs = (if xs = [] then Inl IndexError else Inr (last xs))"

text \<open>
  \<open>json.dumps(parsed)\<close> writes every index with \<open>int.__repr__\<close>, which raises
  \<open>ValueError\<close> for an integer of more than \<open>max_str_digits\<close> digits when the limit is
  not 0; CPython looks at the limit only when the text, sign included, is longer than
  640. Floats, \<open>nan\<close> and the infinities included, are always written.
\<close>

definition int_repr_fails :: "nat \<Rightarrow> int \<Rightarrow> bool" where
  "int_repr_fails max_str_digits k =
     (let n = length (str_nat (nat (abs k)))
      in 640 < n + (if k < 0 then 1 else 0) \<and> 0 < max_str_digits \<and> max_str_digits < n)"

definition json_dumps_fails :: "nat \<Rightarrow> mesh_document \<Rightarrow> bool" where
  "json_dumps_fails max_str_digits parsed = list_ex (int_repr_fails max_str_digits) (Indices parsed)"

text \<open>The block under \<open>if __name__ == "__main__"\<close>; \<open>argv\<close> is \<open>sys.argv\<close>.\<close>

definition main :: "environment \<Rightarrow> string list \<Rightarrow> (py_error + unit) \<times> effect list" where
  "main env argv =
     (if length argv \<noteq> 3 then (Inl UsageException, [])
      else
        let mesh_path = argv ! 1;
            export_path = argv ! 2
        in case py_last (suffixes mesh_path) of
             Inl e \<Rightarrow> (Inl e, [])
           | Inr suffix \<Rightarrow>
               if suffix \<noteq> ''.obj'' then (Inl NameError, [])
               else
                 (case parse_mesh env mesh_path of
                    (Inl e, tr) \<Rightarrow> (Inl e, tr)
                  | (Inr parsed, tr) \<Rightarrow>
                      if json_dumps_fails (int_max_str_digits env) parsed
                        then (Inl ValueError, tr)
                      else if \<not> writable env export_path
                        then (Inl OSError, tr @ [Open_write export_path])
                      else
                        (Inr (),
                         tr @ [Open_write export_path,
                               Write_json export_path parsed,
                               Print (''Exported to file '' @ [CHR 0x22] @ export_path @ [CHR 0x22])])))"

subsection \<open>Notions of the specification\<close>

text \<open>
  What the specification calls the tokens of a line, its leading token (the marker) and
  the tokens after the marker.
\<close>

definition tokens :: "string \<Rightarrow> string list" where
  "tokens l = str_split (CHR '' '') (strip l)"

definition marker :: "string \<Rightarrow> string" where
  "marker l = (case tokens l of [] \<Rightarrow> [] | m # _ \<Rightarrow> m)"

definition fields :: "string \<Rightarrow> string list" where
  "fields l = drop 1 (tokens l)"

definition recognized :: "string \<Rightarrow> bool" where
  "recognized l = (marker l = ''v'' \<or> marker l = ''vt'' \<or> marker l = ''f'')"

text \<open>
  A face reference \<open>vertexIndex[/uvIndex][/normalIndex]\<close>: its first sub-token, and the
  0-based index it stands for.
\<close>

definition first_subtoken :: "string \<Rightarrow> string" where
  "first_subtoken part = takeWhile (\<lambda>c. c \<noteq> CHR ''/'') part"

definition face_index :: "nat \<Rightarrow> string \<Rightarrow> py_error + int" where
  "face_index max_str_digits part =
     (case py_int max_str_digits (first_subtoken part) of
        Inl e \<Rightarrow> Inl e
      | Inr k \<Rightarrow> Inr (k - 1))"

text \<open>The document before the first line is read.\<close>

definition empty_document :: mesh_document where
  "empty_document = \<lparr>Vertices = [], Indices = [], UVs = [], PrimitiveType = 4\<rparr>"

text \<open>
  An entry of an output sequence corresponds to a line: a vertex has the keys \<open>X\<close>, \<open>Y\<close>,
  \<open>Z\<close> with the values of the first three tokens after the marker, a UV the keys \<open>X\<close>,
  \<open>Y\<close> with the values of the first two, and a face line gives one index for each of
  its tokens.
\<close>

definition is_vertex_of :: "string \<Rightarrow> (string \<times> pyfloat) list \<Rightarrow> bool" where
  "is_vertex_of l v =
     (map fst v = [''X'', ''Y'', ''Z''] \<and>
      map py_float (take 3 (fields l)) = map (\<lambda>kv. Inr (snd kv)) v)"

definition is_uv_of :: "string \<Rightarrow> (string \<times> pyfloat) list \<Rightarrow> bool" where
  "is_uv_of l v =
     (map fst v = [''X'', ''Y''] \<and>
      map py_float (take 2 (fields l)) = map (\<lambda>kv. Inr (snd kv)) v)"

definition are_indices_of :: "nat \<Rightarrow> string \<Rightarrow> int list \<Rightarrow> bool" where
  "are_indices_of max_str_digits l ks = (map (face_index max_str_digits) (fields l) = map Inr ks)"

text \<open>The lines of a file with a given marker, in file order.\<close>

definition lines_with :: "string \<Rightarrow> string list \<Rightarrow> string list" where
  "lines_with m ls = filter (\<lambda>l. marker l = m) ls"

text \<open>A token that \<open>float\<close> accepts, and a face reference whose index \<open>int\<close> accepts.\<close>

definition valid_float :: "string \<Rightarrow> bool" where
  "valid_float t = (case py_float t of Inl e \<Rightarrow> False | Inr x \<Rightarrow> True)"

definition valid_reference :: "nat \<Rightarrow> string \<Rightarrow> bool" where
  "valid_reference max_str_digits t =
     (case face_index max_str_digits t of Inl e \<Rightarrow> False | Inr k \<Rightarrow> True)"

text \<open>
  A recognized line with a numeric field that fails to convert: one of the first three
  tokens of a vertex line, one of the first two of a UV line, or the vertex index of a
  face reference.
\<close>

definition bad_field :: "nat \<Rightarrow> string \<Rightarrow> bool" where
  "bad_field max_str_digits l =
     (if marker l = ''v'' then list_ex (\<lambda>t. \<not> valid_float t) (take 3 (fields l))
      else if marker l = ''vt'' then list_ex (\<lambda>t. \<not> valid_float t) (take 2 (fields l))
      else if marker l = ''f'' then list_ex (\<lambda>t. \<not> valid_reference max_str_digits t) (fields l)
      else False)"

text \<open>A vertex line with fewer than 3 tokens after the marker, a UV line with fewer than 2.\<close>

definition short_line :: "string \<Rightarrow> bool" where
  "short_line l =
     ((marker l = ''v'' \<and> length (fields l) < 3) \<or>
      (marker l = ''vt'' \<and> length (fields l) < 2))"

text \<open>
  The exception a line raises on its own, if any, and the exception of the first line
  of a file that raises.
\<close>

definition line_error :: "nat \<Rightarrow> string \<Rightarrow> py_error option" where
  "line_error max_str_digits l =
     (if bad_field max_str_digits l then Some ValueError
      else if short_line l then Some IndexError
      else None)"

definition first_error :: "nat \<Rightarrow> string list \<Rightarrow> py_error option" where
  "first_error max_str_digits ls =
     (case List.find (\<lambda>l. line_error max_str_digits l \<noteq> None) ls of
        None \<Rightarrow> None
      | Some l \<Rightarrow> line_error max_str_digits l)"

text \<open>The documents a run wrote, and the effects on the output file.\<close>

fun written_docs :: "effect list \<Rightarrow> mesh_document list" where
  "written_docs [] = []"
| "written_docs (Write_json p d # es) = d # written_docs es"
| "written_docs (e # es) = written_docs es"

fun writes_files :: "effect \<Rightarrow> bool" where
  "writes_files (Open_write p) = True"
| "writes_files (Write_json p d) = True"
| "writes_files e = False"

subsection \<open>Example inputs\<close>

definition LF :: string where
  "LF = [CHR 0x0A]"

text \<open>
  An environment with one input file, every path writable and the default limit, and
  one with the smallest limit that can be configured.
\<close>

definition env_of :: "string \<Rightarrow> environment" where
  "env_of text =
     \<lparr>files = [''mesh.obj'' \<mapsto> text], writable = (\<lambda>p. True), int_max_str_digits = 4300\<rparr>"




definition example_argv :: "string list" where
  "example_argv = [''mesh_converter.py'', ''mesh.obj'', ''mesh.json'']"

text \<open>A file with interleaved lines, a repeated vertex and a comment, and its document.\<close>

definition mixed_file :: string where
  "mixed_file =
     ''v 1 2 3'' @ LF @ ''vt 0.5 1'' @ LF @ ''f 2 1'' @ LF @ ''v 1 2 3'' @ LF @
     ''# c'' @ LF @ ''v 4 5 6''"

definition mixed_document :: mesh_document where
  "mixed_document =
     \<lparr>Vertices = [[(''X'', Finite 1), (''Y'', Finite 2), (''Z'', Finite 3)],
                  [(''X'', Finite 1), (''Y'', Finite 2), (''Z'', Finite 3)],
                  [(''X'', Finite 4), (''Y'', Finite 5), (''Z'', Finite 6)]],
       Indices = [1, 0],
       UVs = [[(''X'', Finite (1 / 2)), (''Y'', Finite 1)]],
       PrimitiveType = 4\<rparr>"

section \<open>Facts about the built-ins and the line parsers\<close>

lemmas builtin_defs =
  strip_def isspace_def whitespace_def numeric_strip_def numeric_whitespace_def py_index_def is_digit_def digit_val_def
  digitpart_def digits_value_def sign_split_def py_int_def ascii_lower_def number_def
  exponent_def scale10_def py_float_def

lemmas parser_defs =
  VERT_NAME_def UV_NAME_def INDICES_NAME_def VALID_VAR_def float_at_def parse_vert_def
  parse_uv_def loop_body_def file_lines_def

lemma parse_vert_three:
  "parse_vert (a # b # c # extra) parsed =
     (case py_float a of
        Inl e \<Rightarrow> Inl e
      | Inr x \<Rightarrow>
     (case py_float b of
        Inl e \<Rightarrow> Inl e
      | Inr y \<Rightarrow>
     (case py_float c of
        Inl e \<Rightarrow> Inl e
      | Inr z \<Rightarrow>
          Inr (parsed\<lparr>Vertices := Vertices parsed @ [[(''X'', x), (''Y'', y), (''Z'', z)]]\<rparr>))))"
  by (simp add: parse_vert_def float_at_def py_index_def split: sum.splits)

lemma parse_uv_two:
  "parse_uv (a # b # extra) parsed =
     (case py_float a of
        Inl e \<Rightarrow> Inl e
      | Inr u \<Rightarrow>
     (case py_float b of
        Inl e \<Rightarrow> Inl e
      | Inr v \<Rightarrow> Inr (parsed\<lparr>UVs := UVs parsed @ [[(''X'', u), (''Y'', v)]]\<rparr>)))"
  by (simp add: parse_uv_def float_at_def py_index_def split: sum.splits)

lemma py_float_error: "py_float s = Inl e \<Longrightarrow> e = ValueError"
  by (auto simp: py_float_def Let_def split: prod.splits option.splits if_splits)

text \<open>Fewer than three tokens: the first token that is not a float decides, else the index.\<close>

lemma short_list3:
  "length (pram :: 'a list) < 3 \<Longrightarrow> pram = [] \<or> (\<exists>a. pram = [a]) \<or> (\<exists>a b. pram = [a, b])"
  by (cases pram; simp) (metis length_0_conv length_Suc_conv less_Suc_eq less_nat_zero_code numeral_2_eq_2)


lemma short_list2:
  "length (pram :: 'a list) < 2 \<Longrightarrow> pram = [] \<or> (\<exists>a. pram = [a])"
  by (cases pram; simp)

lemma parse_vert_short:
  assumes "length pram < 3"
  shows "parse_vert pram parsed =
           Inl (if list_all valid_float pram then IndexError else ValueError)"
proof -
  from short_list3 [OF assms] consider "pram = []" | a where "pram = [a]"
    | a b where "pram = [a, b]"
    by blast
  then show ?thesis
  proof cases
    case 1
    then show ?thesis by (simp add: parse_vert_def float_at_def py_index_def)
  next
    case 2
    then show ?thesis
      by (auto simp: parse_vert_def float_at_def py_index_def valid_float_def
          split: sum.splits dest: py_float_error)
  next
    case 3
    then show ?thesis
      by (auto simp: parse_vert_def float_at_def py_index_def valid_float_def
          split: sum.splits dest: py_float_error)
  qed
qed

lemma parse_uv_short:
  assumes "length pram < 2"
  shows "parse_uv pram parsed =
           Inl (if list_all valid_float pram then IndexError else ValueError)"
proof -
  from short_list2 [OF assms] consider "pram = []" | a where "pram = [a]"
    by blast
  then show ?thesis
  proof cases
    case 1
    then show ?thesis by (simp add: parse_uv_def float_at_def py_index_def)
  next
    case 2
    then show ?thesis
      by (auto simp: parse_uv_def float_at_def py_index_def valid_float_def
          split: sum.splits dest: py_float_error)
  qed
qed


lemma str_split_nonempty: "str_split sep s \<noteq> []"
  by (induction s) (auto split: list.splits)

lemma str_split_first:
  "py_index (str_split sep s) 0 = Inr (takeWhile (\<lambda>c. c \<noteq> sep) s)"
proof (induction s)
  case Nil
  show ?case by (simp add: py_index_def)
next
  case (Cons c s)
  then show ?case
    using str_split_nonempty [of sep s]
    by (cases "str_split sep s") (auto simp: py_index_def)
qed

lemma tokens_first: "py_index (tokens l) 0 = Inr (marker l)"
  using str_split_nonempty [of "CHR '' ''" "strip l"]
  by (cases "tokens l") (auto simp: tokens_def marker_def py_index_def)

lemma loop_body_marker:
  "loop_body m l parsed =
     (if marker l = ''v'' then parse_vert (fields l) parsed
      else if marker l = ''vt'' then parse_uv (fields l) parsed
      else if marker l = ''f'' then parse_indices m (fields l) parsed
      else Inr parsed)"
  using tokens_first [of l]
  by (auto simp: loop_body_def tokens_def fields_def VALID_VAR_def VERT_NAME_def
      UV_NAME_def INDICES_NAME_def Let_def)

lemma parse_indices_step:
  "parse_indices m (part # rest) parsed =
     (case face_index m part of
        Inl e \<Rightarrow> Inl e
      | Inr k \<Rightarrow> parse_indices m rest (parsed\<lparr>Indices := Indices parsed @ [k]\<rparr>))"
  by (simp add: str_split_first face_index_def first_subtoken_def split: sum.splits)

lemma parse_indices_Inr:
  "parse_indices m pram parsed = Inr parsed' \<longleftrightarrow>
     (\<exists>ks. map (face_index m) pram = map Inr ks \<and>
           parsed' = parsed\<lparr>Indices := Indices parsed @ ks\<rparr>)"
proof (induction pram arbitrary: parsed)
  case Nil
  show ?case by auto
next
  case (Cons part rest)
  show ?case
  proof (cases "face_index m part")
    case (Inl e)
    then show ?thesis
      by (auto simp: parse_indices_step simp del: parse_indices.simps(2))
  next
    case (Inr k)
    have "parse_indices m (part # rest) parsed = Inr parsed' \<longleftrightarrow>
        (\<exists>ks. map (face_index m) rest = map Inr ks \<and>
           parsed' = parsed\<lparr>Indices := Indices parsed @ k # ks\<rparr>)"
      using Inr Cons.IH [of "parsed\<lparr>Indices := Indices parsed @ [k]\<rparr>"]
      by (simp add: parse_indices_step del: parse_indices.simps(2))
    also have "\<dots> \<longleftrightarrow> (\<exists>ks. map (face_index m) (part # rest) = map Inr ks \<and>
           parsed' = parsed\<lparr>Indices := Indices parsed @ ks\<rparr>)"
      using Inr by (auto simp: map_eq_Cons_conv Cons_eq_map_conv)
    finally show ?thesis .
  qed
qed

lemma py_int_error: "py_int m s = Inl e \<Longrightarrow> e = ValueError"
  by (auto simp: py_int_def split: prod.splits option.splits if_splits)

lemma face_index_error: "face_index m part = Inl e \<Longrightarrow> e = ValueError"
  by (auto simp: face_index_def split: sum.splits dest: py_int_error)

lemma parse_indices_Inl:
  "parse_indices m pram parsed = Inl e \<longleftrightarrow>
     (e = ValueError \<and> list_ex (\<lambda>t. \<not> valid_reference m t) pram)"
proof (induction pram arbitrary: parsed)
  case Nil
  show ?case by simp
next
  case (Cons part rest)
  show ?case
    using Cons.IH
    by (cases "face_index m part")
      (auto simp: parse_indices_step valid_reference_def
        simp del: parse_indices.simps(2) dest: face_index_error)
qed

section \<open>What a successful run appends\<close>

lemma three_keys:
  "map fst v = [k1, k2, k3] \<longleftrightarrow> (\<exists>x y z. v = [(k1, x), (k2, y), (k3, z)])"
  by (auto simp: map_eq_Cons_conv)

lemma two_keys:
  "map fst v = [k1, k2] \<longleftrightarrow> (\<exists>x y. v = [(k1, x), (k2, y)])"
  by (auto simp: map_eq_Cons_conv)

lemma long_list3:
  "\<not> length (pram :: 'a list) < 3 \<Longrightarrow> \<exists>a b c extra. pram = a # b # c # extra"
  by (auto simp: not_less numeral_3_eq_3 Suc_le_length_iff)

lemma long_list2:
  "\<not> length (pram :: 'a list) < 2 \<Longrightarrow> \<exists>a b extra. pram = a # b # extra"
  by (auto simp: not_less numeral_2_eq_2 Suc_le_length_iff)


lemma ex_three_keys:
  "(\<exists>v. map fst v = [k1, k2, k3] \<and> [a, b, c] = map (\<lambda>kv. Inr (snd kv)) v \<and> P v) \<longleftrightarrow>
   (\<exists>x y z. a = Inr x \<and> b = Inr y \<and> c = Inr z \<and> P [(k1, x), (k2, y), (k3, z)])"
  unfolding three_keys by fastforce

lemma ex_two_keys:
  "(\<exists>v. map fst v = [k1, k2] \<and> [a, b] = map (\<lambda>kv. Inr (snd kv)) v \<and> P v) \<longleftrightarrow>
   (\<exists>x y. a = Inr x \<and> b = Inr y \<and> P [(k1, x), (k2, y)])"
  unfolding two_keys by fastforce

lemma keys_length: "map fst v = ks \<Longrightarrow> length v = length ks"
  by auto

lemma parse_vert_Inr:
  "parse_vert pram parsed = Inr parsed' \<longleftrightarrow>
     (\<exists>v. map fst v = [''X'', ''Y'', ''Z''] \<and>
          map py_float (take 3 pram) = map (\<lambda>kv. Inr (snd kv)) v \<and>
          parsed' = parsed\<lparr>Vertices := Vertices parsed @ [v]\<rparr>)"
proof (cases "length pram < 3")
  case True
  have "map py_float (take 3 pram) \<noteq> map (\<lambda>kv. Inr (snd kv)) v"
    if "map fst v = [''X'', ''Y'', ''Z'']" for v :: "(string \<times> pyfloat) list"
  proof
    assume "map py_float (take 3 pram) = map (\<lambda>kv. Inr (snd kv)) v"
    then have "length (take 3 pram) = length v"
      using map_eq_imp_length_eq by blast
    moreover have "length v = 3"
      using keys_length [OF that] by simp
    ultimately show False using True by simp
  qed
  then show ?thesis
    using True by (auto simp: parse_vert_short)
next
  case False
  from long_list3 [OF this] obtain a b c extra where pram: "pram = a # b # c # extra"
    by blast
  have "map py_float (take 3 pram) = [py_float a, py_float b, py_float c]"
    by (simp add: pram)
  then show ?thesis
    unfolding pram parse_vert_three
    by (auto simp: ex_three_keys split: sum.splits)
qed

lemma parse_uv_Inr:
  "parse_uv pram parsed = Inr parsed' \<longleftrightarrow>
     (\<exists>v. map fst v = [''X'', ''Y''] \<and>
          map py_float (take 2 pram) = map (\<lambda>kv. Inr (snd kv)) v \<and>
          parsed' = parsed\<lparr>UVs := UVs parsed @ [v]\<rparr>)"
proof (cases "length pram < 2")
  case True
  have "map py_float (take 2 pram) \<noteq> map (\<lambda>kv. Inr (snd kv)) v"
    if "map fst v = [''X'', ''Y'']" for v :: "(string \<times> pyfloat) list"
  proof
    assume "map py_float (take 2 pram) = map (\<lambda>kv. Inr (snd kv)) v"
    then have "length (take 2 pram) = length v"
      using map_eq_imp_length_eq by blast
    moreover have "length v = 2"
      using keys_length [OF that] by simp
    ultimately show False using True by simp
  qed
  then show ?thesis
    using True by (auto simp: parse_uv_short)
next
  case False
  from long_list2 [OF this] obtain a b extra where pram: "pram = a # b # extra"
    by blast
  have "map py_float (take 2 pram) = [py_float a, py_float b]"
    by (simp add: pram)
  then show ?thesis
    unfolding pram parse_uv_two
    by (auto simp: ex_two_keys split: sum.splits)
qed


lemma loop_body_Inr:
  "loop_body m l parsed = Inr parsed' \<longleftrightarrow>
     (if marker l = ''v'' then
        \<exists>v. is_vertex_of l v \<and> parsed' = parsed\<lparr>Vertices := Vertices parsed @ [v]\<rparr>
      else if marker l = ''vt'' then
        \<exists>v. is_uv_of l v \<and> parsed' = parsed\<lparr>UVs := UVs parsed @ [v]\<rparr>
      else if marker l = ''f'' then
        \<exists>ks. are_indices_of m l ks \<and> parsed' = parsed\<lparr>Indices := Indices parsed @ ks\<rparr>
      else parsed' = parsed)"
  by (auto simp: loop_body_marker parse_vert_Inr parse_uv_Inr parse_indices_Inr
      is_vertex_of_def is_uv_of_def are_indices_of_def)

lemma parse_loop_Cons_Inr:
  "parse_loop m (l # ls) parsed = Inr parsed' \<longleftrightarrow>
     (\<exists>p. loop_body m l parsed = Inr p \<and> parse_loop m ls p = Inr parsed')"
  by (simp split: sum.splits)

lemma lines_with_Cons:
  "lines_with m (l # ls) = (if marker l = m then l # lines_with m ls else lines_with m ls)"
  by (simp add: lines_with_def)

lemma loop_body_Vertices:
  assumes "loop_body m l parsed = Inr p"
  shows "if marker l = ''v'' then \<exists>v. is_vertex_of l v \<and> Vertices p = Vertices parsed @ [v]
         else Vertices p = Vertices parsed"
  using assms unfolding loop_body_Inr by (auto split: if_splits)

lemma parse_loop_Vertices:
  "parse_loop m ls parsed = Inr parsed' \<Longrightarrow>
     \<exists>vs. list_all2 is_vertex_of (lines_with ''v'' ls) vs \<and>
          Vertices parsed' = Vertices parsed @ vs"
proof (induction ls arbitrary: parsed)
  case Nil
  then show ?case by (simp add: lines_with_def)
next
  case (Cons l ls)
  from Cons.prems obtain p where p: "loop_body m l parsed = Inr p" "parse_loop m ls p = Inr parsed'"
    unfolding parse_loop_Cons_Inr by blast
  from Cons.IH [OF p(2)] obtain vs where vs: "list_all2 is_vertex_of (lines_with ''v'' ls) vs"
    "Vertices parsed' = Vertices p @ vs"
    by blast
  show ?case
  proof (cases "marker l = ''v''")
    case True
    with loop_body_Vertices [OF p(1)] obtain v where "is_vertex_of l v"
      "Vertices p = Vertices parsed @ [v]"
      by auto
    with vs True have "list_all2 is_vertex_of (lines_with ''v'' (l # ls)) (v # vs)"
      "Vertices parsed' = Vertices parsed @ (v # vs)"
      by (simp_all add: lines_with_Cons)
    then show ?thesis by blast
  next
    case False
    with loop_body_Vertices [OF p(1)] have "Vertices p = Vertices parsed"
      by simp
    with vs False show ?thesis
      by (auto simp: lines_with_Cons)
  qed
qed


lemma loop_body_UVs:
  assumes "loop_body m l parsed = Inr p"
  shows "if marker l = ''vt'' then \<exists>v. is_uv_of l v \<and> UVs p = UVs parsed @ [v]
         else UVs p = UVs parsed"
  using assms unfolding loop_body_Inr by (auto split: if_splits)

lemma loop_body_Indices:
  assumes "loop_body m l parsed = Inr p"
  shows "if marker l = ''f'' then \<exists>ks. are_indices_of m l ks \<and> Indices p = Indices parsed @ ks
         else Indices p = Indices parsed"
  using assms unfolding loop_body_Inr by (auto split: if_splits)

lemma loop_body_PrimitiveType:
  assumes "loop_body m l parsed = Inr p"
  shows "PrimitiveType p = PrimitiveType parsed"
  using assms unfolding loop_body_Inr by (auto split: if_splits)

lemma parse_loop_UVs:
  "parse_loop m ls parsed = Inr parsed' \<Longrightarrow>
     \<exists>us. list_all2 is_uv_of (lines_with ''vt'' ls) us \<and> UVs parsed' = UVs parsed @ us"
proof (induction ls arbitrary: parsed)
  case Nil
  then show ?case by (simp add: lines_with_def)
next
  case (Cons l ls)
  from Cons.prems obtain p where p: "loop_body m l parsed = Inr p" "parse_loop m ls p = Inr parsed'"
    unfolding parse_loop_Cons_Inr by blast
  from Cons.IH [OF p(2)] obtain us where us: "list_all2 is_uv_of (lines_with ''vt'' ls) us"
    "UVs parsed' = UVs p @ us"
    by blast
  show ?case
  proof (cases "marker l = ''vt''")
    case True
    with loop_body_UVs [OF p(1)] obtain u where "is_uv_of l u" "UVs p = UVs parsed @ [u]"
      by auto
    with us True have "list_all2 is_uv_of (lines_with ''vt'' (l # ls)) (u # us)"
      "UVs parsed' = UVs parsed @ (u # us)"
      by (simp_all add: lines_with_Cons)
    then show ?thesis by blast
  next
    case False
    with loop_body_UVs [OF p(1)] have "UVs p = UVs parsed"
      by simp
    with us False show ?thesis
      by (auto simp: lines_with_Cons)
  qed
qed

lemma parse_loop_Indices:
  "parse_loop m ls parsed = Inr parsed' \<Longrightarrow>
     \<exists>kss. list_all2 (are_indices_of m) (lines_with ''f'' ls) kss \<and>
           Indices parsed' = Indices parsed @ concat kss"
proof (induction ls arbitrary: parsed)
  case Nil
  then show ?case by (simp add: lines_with_def)
next
  case (Cons l ls)
  from Cons.prems obtain p where p: "loop_body m l parsed = Inr p" "parse_loop m ls p = Inr parsed'"
    unfolding parse_loop_Cons_Inr by blast
  from Cons.IH [OF p(2)] obtain kss where kss: "list_all2 (are_indices_of m) (lines_with ''f'' ls) kss"
    "Indices parsed' = Indices p @ concat kss"
    by blast
  show ?case
  proof (cases "marker l = ''f''")
    case True
    with loop_body_Indices [OF p(1)] obtain ks where "are_indices_of m l ks"
      "Indices p = Indices parsed @ ks"
      by auto
    with kss True have "list_all2 (are_indices_of m) (lines_with ''f'' (l # ls)) (ks # kss)"
      "Indices parsed' = Indices parsed @ concat (ks # kss)"
      by (simp_all add: lines_with_Cons)
    then show ?thesis by blast
  next
    case False
    with loop_body_Indices [OF p(1)] have "Indices p = Indices parsed"
      by simp
    with kss False show ?thesis
      by (auto simp: lines_with_Cons)
  qed
qed

lemma parse_loop_PrimitiveType:
  "parse_loop m ls parsed = Inr parsed' \<Longrightarrow> PrimitiveType parsed' = PrimitiveType parsed"
proof (induction ls arbitrary: parsed)
  case Nil
  then show ?case by simp
next
  case (Cons l ls)
  from Cons.prems obtain p where p: "loop_body m l parsed = Inr p" "parse_loop m ls p = Inr parsed'"
    unfolding parse_loop_Cons_Inr by blast
  with Cons.IH [OF p(2)] loop_body_PrimitiveType [OF p(1)] show ?case by simp
qed

section \<open>Which exception a run raises\<close>

lemma list_ex_not: "list_ex (\<lambda>t. \<not> P t) xs \<longleftrightarrow> \<not> list_all P xs"
  by (induction xs) auto

lemma parse_vert_Inl:
  "parse_vert pram parsed = Inl e \<longleftrightarrow>
     (if list_ex (\<lambda>t. \<not> valid_float t) (take 3 pram) then e = ValueError
      else length pram < 3 \<and> e = IndexError)"
proof (cases "length pram < 3")
  case True
  then have "take 3 pram = pram" by simp
  then show ?thesis
    using True by (auto simp: parse_vert_short list_ex_not)
next
  case False
  from long_list3 [OF this] obtain a b c extra where pram: "pram = a # b # c # extra"
    by blast
  show ?thesis
    unfolding pram parse_vert_three
    by (auto simp: valid_float_def split: sum.splits dest: py_float_error)
qed

lemma parse_uv_Inl:
  "parse_uv pram parsed = Inl e \<longleftrightarrow>
     (if list_ex (\<lambda>t. \<not> valid_float t) (take 2 pram) then e = ValueError
      else length pram < 2 \<and> e = IndexError)"
proof (cases "length pram < 2")
  case True
  then have "take 2 pram = pram" by simp
  then show ?thesis
    using True by (auto simp: parse_uv_short list_ex_not)
next
  case False
  from long_list2 [OF this] obtain a b extra where pram: "pram = a # b # extra"
    by blast
  show ?thesis
    unfolding pram parse_uv_two
    by (auto simp: valid_float_def split: sum.splits dest: py_float_error)
qed

lemma loop_body_Inl: "loop_body m l parsed = Inl e \<longleftrightarrow> line_error m l = Some e"
  by (auto simp: loop_body_marker parse_vert_Inl parse_uv_Inl parse_indices_Inl
      line_error_def bad_field_def short_line_def split: if_splits)

lemma loop_body_total: "line_error m l = None \<Longrightarrow> \<exists>p. loop_body m l parsed = Inr p"
  using loop_body_Inl [of m l parsed] by (cases "loop_body m l parsed") auto

lemma parse_loop_Inl: "parse_loop m ls parsed = Inl e \<longleftrightarrow> first_error m ls = Some e"
proof (induction ls arbitrary: parsed)
  case Nil
  show ?case by (simp add: first_error_def)
next
  case (Cons l ls)
  show ?case
  proof (cases "line_error m l")
    case None
    then obtain p where p: "loop_body m l parsed = Inr p"
      using loop_body_total by blast
    have "first_error m (l # ls) = first_error m ls"
      using None by (simp add: first_error_def)
    with p Cons.IH [of p] show ?thesis by simp
  next
    case (Some e')
    then have "loop_body m l parsed = Inl e'"
      by (simp add: loop_body_Inl)
    moreover have "first_error m (l # ls) = Some e'"
      using Some by (simp add: first_error_def)
    ultimately show ?thesis by auto
  qed
qed

lemma first_error_member:
  "first_error m ls = Some e \<Longrightarrow> \<exists>l \<in> set ls. line_error m l = Some e"
  by (auto simp: first_error_def find_Some_iff split: option.splits)

lemma first_error_exists:
  "l \<in> set ls \<Longrightarrow> line_error m l \<noteq> None \<Longrightarrow> \<exists>e. first_error m ls = Some e"
  by (induction ls) (auto simp: first_error_def)

section \<open>The entry point\<close>

lemma main_reads:
  assumes "length argv = 3" and "py_last (suffixes (argv ! 1)) = Inr ''.obj''"
    and "files env (argv ! 1) = Some text"
  shows "main env argv =
     (case parse_loop (int_max_str_digits env) (file_lines text) empty_document of
        Inl e \<Rightarrow> (Inl e, [Open_read (argv ! 1)])
      | Inr d \<Rightarrow>
          if json_dumps_fails (int_max_str_digits env) d then
            (Inl ValueError,
             [Open_read (argv ! 1),
              Print (''Parsed '' @ str_nat (length (Vertices d)) @ '' vertices''),
              Print (''Parsed '' @ str_nat (length (Indices d)) @ '' indices''),
              Print (''Parsed '' @ str_nat (length (UVs d)) @ '' UVs'')])
          else if writable env (argv ! 2) then
            (Inr (),
             [Open_read (argv ! 1),
              Print (''Parsed '' @ str_nat (length (Vertices d)) @ '' vertices''),
              Print (''Parsed '' @ str_nat (length (Indices d)) @ '' indices''),
              Print (''Parsed '' @ str_nat (length (UVs d)) @ '' UVs''),
              Open_write (argv ! 2),
              Write_json (argv ! 2) d,
              Print (''Exported to file '' @ [CHR 0x22] @ argv ! 2 @ [CHR 0x22])])
          else
            (Inl OSError,
             [Open_read (argv ! 1),
              Print (''Parsed '' @ str_nat (length (Vertices d)) @ '' vertices''),
              Print (''Parsed '' @ str_nat (length (Indices d)) @ '' indices''),
              Print (''Parsed '' @ str_nat (length (UVs d)) @ '' UVs''),
              Open_write (argv ! 2)]))"
  using assms
  by (simp add: main_def parse_mesh_def empty_document_def Let_def split: sum.splits)

lemma parse_mesh_reads:
  assumes "files env path = Some text"
  shows "fst (parse_mesh env path) = parse_loop (int_max_str_digits env) (file_lines text) empty_document"
  using assms
  by (simp add: parse_mesh_def empty_document_def Let_def split: sum.splits)

lemma main_Inr:
  assumes "main env argv = (Inr (), tr)"
  shows "\<exists>text d. length argv = 3 \<and> py_last (suffixes (argv ! 1)) = Inr ''.obj'' \<and>
           files env (argv ! 1) = Some text \<and>
           parse_loop (int_max_str_digits env) (file_lines text) empty_document = Inr d \<and>
           \<not> json_dumps_fails (int_max_str_digits env) d \<and>
           writable env (argv ! 2) \<and> written_docs tr = [d]"
  using assms
  by (auto simp: main_def parse_mesh_def empty_document_def Let_def
      split: if_splits sum.splits option.splits)

lemmas path_defs = suffixes_def path_name_def py_last_def

lemmas example_defs = env_of_def example_argv_def LF_def

lemma example_ok:
  "length example_argv = 3" "py_last (suffixes (example_argv ! 1)) = Inr ''.obj''"
  "files (env_of content) (example_argv ! 1) = Some content"
  "writable (env_of content) (example_argv ! 2)"
  by (simp_all add: example_defs path_defs)

lemma example_limit: "int_max_str_digits (env_of content) = 4300"
  by (simp add: env_of_def)

lemma str_nat_digit: "n < 10 \<Longrightarrow> length (str_nat n) = 1"
  by (simp add: str_nat.simps)

lemma small_int_repr: "abs k < 10 \<Longrightarrow> \<not> int_repr_fails m k"
  using str_nat_digit [of "nat (abs k)"] by (simp add: int_repr_fails_def)

lemma no_indices_dumps: "Indices d = [] \<Longrightarrow> \<not> json_dumps_fails m d"
  by (simp add: json_dumps_fails_def)

section \<open>The claims\<close>

text \<open>
  C8. An invocation whose argument count is not exactly two (the length of \<open>sys.argv\<close>
  is not 3: one argument, three arguments, ...) ends with the usage exception, and the run
  has no effect at all: no file is opened, read or written.
\<close>

theorem usage_error:
  "length argv \<noteq> 3 \<Longrightarrow> main env argv = (Inl UsageException, [])"
  by (simp add: main_def)

theorem usage_error_witness:
  "main (env_of ''v 1.0 2.0 3.0'') [''mesh_converter.py'', ''mesh.obj''] = (Inl UsageException, []) \<and>
   main (env_of ''v 1.0 2.0 3.0'') [''mesh_converter.py'', ''mesh.obj'', ''mesh.json'', ''more''] =
     (Inl UsageException, [])"
proof -
  have "main (env_of ''v 1.0 2.0 3.0'') [''mesh_converter.py'', ''mesh.obj''] = (Inl UsageException, [])"
    by (rule usage_error) simp
  moreover have "main (env_of ''v 1.0 2.0 3.0'') [''mesh_converter.py'', ''mesh.obj'', ''mesh.json'', ''more''] =
     (Inl UsageException, [])"
    by (rule usage_error) simp
  ultimately show ?thesis by (rule conjI)
qed

text \<open>
  C7. With two arguments, an input path whose last suffix is not exactly \<open>.obj\<close> ends
  the run with an exception before anything is parsed and before any file is opened:
  the effect trace is empty. The exception is \<open>NameError\<close>, or \<open>IndexError\<close> when the
  path has no suffix at all.
\<close>

theorem wrong_suffix:
  "length argv = 3 \<Longrightarrow> py_last (suffixes (argv ! 1)) \<noteq> Inr ''.obj'' \<Longrightarrow>
     main env argv = (Inl (if suffixes (argv ! 1) = [] then IndexError else NameError), [])"
  by (auto simp: main_def py_last_def Let_def)

theorem wrong_suffix_witness:
  "main (env_of ''v 1.0 2.0 3.0'') [''mesh_converter.py'', ''mesh.OBJ'', ''mesh.json''] = (Inl NameError, []) \<and>
   main (env_of ''v 1.0 2.0 3.0'') [''mesh_converter.py'', ''mesh.obj.txt'', ''mesh.json''] = (Inl NameError, []) \<and>
   main (env_of ''v 1.0 2.0 3.0'') [''mesh_converter.py'', ''mesh'', ''mesh.json''] = (Inl IndexError, [])"
proof -
  have a: "suffixes ''mesh.OBJ'' = [''.OBJ'']" "suffixes ''mesh.obj.txt'' = [''.obj'', ''.txt'']"
    "suffixes ''mesh'' = []"
    by (simp_all add: path_defs)
  have "main (env_of ''v 1.0 2.0 3.0'') [''mesh_converter.py'', ''mesh.OBJ'', ''mesh.json''] = (Inl NameError, [])"
    using wrong_suffix [of "[''mesh_converter.py'', ''mesh.OBJ'', ''mesh.json'']" "env_of ''v 1.0 2.0 3.0''"]
    by (simp add: a py_last_def)
  moreover have "main (env_of ''v 1.0 2.0 3.0'') [''mesh_converter.py'', ''mesh.obj.txt'', ''mesh.json''] = (Inl NameError, [])"
    using wrong_suffix [of "[''mesh_converter.py'', ''mesh.obj.txt'', ''mesh.json'']" "env_of ''v 1.0 2.0 3.0''"]
    by (simp add: a py_last_def)
  moreover have "main (env_of ''v 1.0 2.0 3.0'') [''mesh_converter.py'', ''mesh'', ''mesh.json''] = (Inl IndexError, [])"
    using wrong_suffix [of "[''mesh_converter.py'', ''mesh'', ''mesh.json'']" "env_of ''v 1.0 2.0 3.0''"]
    by (simp add: a py_last_def)
  ultimately show ?thesis by blast
qed

lemma main_writes:
  assumes "length argv = 3" and "py_last (suffixes (argv ! 1)) = Inr ''.obj''"
    and "files env (argv ! 1) = Some text" and "writable env (argv ! 2)"
    and "parse_loop (int_max_str_digits env) (file_lines text) empty_document = Inr d"
    and "\<not> json_dumps_fails (int_max_str_digits env) d"
  shows "fst (main env argv) = Inr ()" and "written_docs (snd (main env argv)) = [d]"
  using assms by (simp_all add: main_reads)

text \<open>
  C4. Whenever the run succeeds, exactly one document is written and its
  \<open>PrimitiveType\<close> is the constant 4; the same holds for every document \<open>parse_mesh\<close>
  returns, whatever the lines of the file are.
\<close>

theorem primitive_type_constant:
  "(main env argv = (Inr (), tr) \<longrightarrow> (\<exists>d. written_docs tr = [d] \<and> PrimitiveType d = 4)) \<and>
   (fst (parse_mesh env path) = Inr d' \<longrightarrow> PrimitiveType d' = 4)"
proof (intro conjI impI)
  assume "main env argv = (Inr (), tr)"
  from main_Inr [OF this] obtain content d
    where "parse_loop (int_max_str_digits env) (file_lines content) empty_document = Inr d" "written_docs tr = [d]"
    by blast
  moreover from this have "PrimitiveType d = 4"
    using parse_loop_PrimitiveType by (fastforce simp: empty_document_def)
  ultimately show "\<exists>d. written_docs tr = [d] \<and> PrimitiveType d = 4"
    by blast
next
  assume a: "fst (parse_mesh env path) = Inr d'"
  then obtain content where "files env path = Some content"
    by (cases "files env path") (auto simp: parse_mesh_def)
  with a have "parse_loop (int_max_str_digits env) (file_lines content) empty_document = Inr d'"
    by (simp add: parse_mesh_reads)
  then show "PrimitiveType d' = 4"
    using parse_loop_PrimitiveType by (fastforce simp: empty_document_def)
qed

lemma quad_run:
  "parse_loop (int_max_str_digits env) (file_lines ''f 1 2 3 4'') empty_document = Inr (empty_document\<lparr>Indices := [0, 1, 2, 3]\<rparr>)"
  by (simp add: builtin_defs parser_defs empty_document_def)

lemma quad_dumps: "\<not> json_dumps_fails m (empty_document\<lparr>Indices := [0, 1, 2, 3]\<rparr>)"
  by (simp add: json_dumps_fails_def small_int_repr empty_document_def)

theorem primitive_type_constant_witness:
  "fst (main (env_of ''f 1 2 3 4'') example_argv) = Inr () \<and>
   map PrimitiveType (written_docs (snd (main (env_of ''f 1 2 3 4'') example_argv))) = [4]"
proof -
  have run: "main (env_of ''f 1 2 3 4'') example_argv =
      (fst (main (env_of ''f 1 2 3 4'') example_argv), snd (main (env_of ''f 1 2 3 4'') example_argv))"
    by simp
  have r: "fst (main (env_of ''f 1 2 3 4'') example_argv) = Inr ()"
    by (rule main_writes(1) [OF example_ok quad_run quad_dumps])
  with run primitive_type_constant
    [of "env_of ''f 1 2 3 4''" example_argv "snd (main (env_of ''f 1 2 3 4'') example_argv)"]
  obtain d where "written_docs (snd (main (env_of ''f 1 2 3 4'') example_argv)) = [d]"
    "PrimitiveType d = 4"
    by auto
  with r show ?thesis by simp
qed

text \<open>
  C5. A file whose only line is \<open>v 1.0 2.0 3.0\<close> (with or without its newline) gives a
  document with the single vertex \<open>{"X": 1.0, "Y": 2.0, "Z": 3.0}\<close> and no index and no
  UV. In general a vertex line is handled by \<open>parse_vert\<close> on the tokens after the marker,
  the first three tokens are X, Y and Z in this order, and further tokens change nothing.
\<close>

theorem single_vertex_file:
  "(length argv = 3 \<and> py_last (suffixes (argv ! 1)) = Inr ''.obj'' \<and>
    (files env (argv ! 1) = Some ''v 1.0 2.0 3.0'' \<or>
     files env (argv ! 1) = Some (''v 1.0 2.0 3.0'' @ LF)) \<and>
    writable env (argv ! 2) \<longrightarrow>
      fst (main env argv) = Inr () \<and>
      written_docs (snd (main env argv)) =
        [\<lparr>Vertices = [[(''X'', Finite 1), (''Y'', Finite 2), (''Z'', Finite 3)]],
          Indices = [], UVs = [], PrimitiveType = 4\<rparr>]) \<and>
   (marker l = ''v'' \<longrightarrow> loop_body m l parsed = parse_vert (fields l) parsed) \<and>
   (py_float a = Inr x \<and> py_float b = Inr y \<and> py_float c = Inr z \<longrightarrow>
      parse_vert (a # b # c # extra) parsed =
        Inr (parsed\<lparr>Vertices := Vertices parsed @ [[(''X'', x), (''Y'', y), (''Z'', z)]]\<rparr>)) \<and>
   parse_vert (a # b # c # extra) parsed = parse_vert [a, b, c] parsed"
proof -
  have run: "parse_loop (int_max_str_digits env) (file_lines content) empty_document =
      Inr \<lparr>Vertices = [[(''X'', Finite 1), (''Y'', Finite 2), (''Z'', Finite 3)]],
          Indices = [], UVs = [], PrimitiveType = 4\<rparr>"
    if "content = ''v 1.0 2.0 3.0'' \<or> content = ''v 1.0 2.0 3.0'' @ LF" for content
    using that by (auto simp: builtin_defs parser_defs empty_document_def LF_def)
  have 1: "fst (main env argv) = Inr () \<and>
      written_docs (snd (main env argv)) =
        [\<lparr>Vertices = [[(''X'', Finite 1), (''Y'', Finite 2), (''Z'', Finite 3)]],
          Indices = [], UVs = [], PrimitiveType = 4\<rparr>]"
    if "length argv = 3" "py_last (suffixes (argv ! 1)) = Inr ''.obj''"
      "files env (argv ! 1) = Some ''v 1.0 2.0 3.0'' \<or>
       files env (argv ! 1) = Some (''v 1.0 2.0 3.0'' @ LF)"
      "writable env (argv ! 2)"
  proof -
    from that(3) obtain content where t: "files env (argv ! 1) = Some content"
      "content = ''v 1.0 2.0 3.0'' \<or> content = ''v 1.0 2.0 3.0'' @ LF"
      by blast
    show ?thesis
      using main_writes [OF that(1,2) t(1) that(4) run [OF t(2)]]
      by (simp add: json_dumps_fails_def)
  qed
  have 2: "loop_body m l parsed = parse_vert (fields l) parsed" if "marker l = ''v''"
    using that by (simp add: loop_body_marker)
  have 3: "parse_vert (a # b # c # extra) parsed =
        Inr (parsed\<lparr>Vertices := Vertices parsed @ [[(''X'', x), (''Y'', y), (''Z'', z)]]\<rparr>)"
    if "py_float a = Inr x" "py_float b = Inr y" "py_float c = Inr z"
    using that by (simp add: parse_vert_three)
  have 4: "parse_vert (a # b # c # extra) parsed = parse_vert [a, b, c] parsed"
    by (simp add: parse_vert_three)
  from 1 2 3 4 show ?thesis by blast
qed

theorem single_vertex_file_witness:
  "written_docs (snd (main (env_of ''v 1.0 2.0 3.0'') example_argv)) =
     [\<lparr>Vertices = [[(''X'', Finite 1), (''Y'', Finite 2), (''Z'', Finite 3)]],
       Indices = [], UVs = [], PrimitiveType = 4\<rparr>] \<and>
   parse_vert [''0.5'', ''-2'', ''1e1'', ''0.25'', ''red''] empty_document =
     Inr (empty_document\<lparr>Vertices := [[(''X'', Finite (1 / 2)), (''Y'', Finite (- 2)), (''Z'', Finite 10)]]\<rparr>)"
proof -
  have f: "py_float ''0.5'' = Inr (Finite (1 / 2))" "py_float ''-2'' = Inr (Finite (- 2))"
    "py_float ''1e1'' = Inr (Finite 10)"
    by (simp_all add: builtin_defs)
  note inst = single_vertex_file [where argv = example_argv and env = "env_of ''v 1.0 2.0 3.0''"
      and parsed = empty_document and a = "''0.5''" and x = "Finite (1 / 2)" and b = "''-2''"
      and y = "Finite (- 2)" and c = "''1e1''" and z = "Finite 10"
      and extra = "[''0.25'', ''red'']"]
  from inst example_ok
  have "written_docs (snd (main (env_of ''v 1.0 2.0 3.0'') example_argv)) =
     [\<lparr>Vertices = [[(''X'', Finite 1), (''Y'', Finite 2), (''Z'', Finite 3)]],
       Indices = [], UVs = [], PrimitiveType = 4\<rparr>]"
    by blast
  moreover from inst f have "parse_vert [''0.5'', ''-2'', ''1e1'', ''0.25'', ''red''] empty_document =
     Inr (empty_document\<lparr>Vertices := [[(''X'', Finite (1 / 2)), (''Y'', Finite (- 2)), (''Z'', Finite 10)]]\<rparr>)"
    by (simp add: empty_document_def)
  ultimately show ?thesis by (rule conjI)
qed

text \<open>
  C1. A face line is handled by \<open>parse_indices\<close> on the tokens after the marker. It
  succeeds exactly when the first sub-token of every token (the part before the first
  \<open>/\<close>) is accepted by \<open>int\<close>, and then it appends one index for each token, in token
  order, the integer minus 1; the sub-tokens behind the first \<open>/\<close> play no role and the
  number of tokens is not looked at. The file \<open>f 1/1/1 2/2/2 3/3/3\<close> gives the indices
  \<open>[0, 1, 2]\<close>.
\<close>

theorem face_indices_flat:
  "(parse_indices m pram parsed = Inr parsed' \<longleftrightarrow>
      (\<exists>ks. length ks = length pram \<and> map (face_index m) pram = map Inr ks \<and>
            parsed' = parsed\<lparr>Indices := Indices parsed @ ks\<rparr>)) \<and>
   (marker l = ''f'' \<longrightarrow> loop_body m l parsed = parse_indices m (fields l) parsed) \<and>
   py_index (str_split (CHR ''/'') part) 0 = Inr (first_subtoken part) \<and>
   (files env path = Some ''f 1/1/1 2/2/2 3/3/3'' \<longrightarrow>
      fst (parse_mesh env path) =
        Inr \<lparr>Vertices = [], Indices = [0, 1, 2], UVs = [], PrimitiveType = 4\<rparr>)"
proof -
  have 1: "parse_indices m pram parsed = Inr parsed' \<longleftrightarrow>
      (\<exists>ks. length ks = length pram \<and> map (face_index m) pram = map Inr ks \<and>
            parsed' = parsed\<lparr>Indices := Indices parsed @ ks\<rparr>)"
    unfolding parse_indices_Inr using map_eq_imp_length_eq by fastforce
  have 2: "loop_body m l parsed = parse_indices m (fields l) parsed" if "marker l = ''f''"
    using that by (simp add: loop_body_marker)
  have 3: "py_index (str_split (CHR ''/'') part) 0 = Inr (first_subtoken part)"
    by (simp add: str_split_first first_subtoken_def)
  have "parse_loop (int_max_str_digits env) (file_lines ''f 1/1/1 2/2/2 3/3/3'') empty_document =
      Inr \<lparr>Vertices = [], Indices = [0, 1, 2], UVs = [], PrimitiveType = 4\<rparr>"
    by (simp add: builtin_defs parser_defs empty_document_def)
  then have 4: "fst (parse_mesh env path) =
        Inr \<lparr>Vertices = [], Indices = [0, 1, 2], UVs = [], PrimitiveType = 4\<rparr>"
    if "files env path = Some ''f 1/1/1 2/2/2 3/3/3''"
    using that by (simp add: parse_mesh_reads)
  from 1 2 3 4 show ?thesis by blast
qed

theorem face_indices_flat_witness:
  "parse_indices 4300 [''1/1/1'', ''2/2/2'', ''3/3/3'', ''4/4/4''] empty_document =
     Inr (empty_document\<lparr>Indices := [0, 1, 2, 3]\<rparr>) \<and>
   fst (parse_mesh (env_of ''f 1/1/1 2/2/2 3/3/3'') ''mesh.obj'') =
     Inr \<lparr>Vertices = [], Indices = [0, 1, 2], UVs = [], PrimitiveType = 4\<rparr>"
proof -
  note inst = face_indices_flat [where pram = "[''1/1/1'', ''2/2/2'', ''3/3/3'', ''4/4/4'']"
      and parsed = empty_document and parsed' = "empty_document\<lparr>Indices := [0, 1, 2, 3]\<rparr>"
      and env = "env_of ''f 1/1/1 2/2/2 3/3/3''" and path = "''mesh.obj''"]
  have "map (face_index 4300) [''1/1/1'', ''2/2/2'', ''3/3/3'', ''4/4/4''] = map Inr [0, 1, 2, 3]"
    by (simp add: face_index_def first_subtoken_def builtin_defs)
  moreover have "empty_document\<lparr>Indices := [0, 1, 2, 3]\<rparr> =
      empty_document\<lparr>Indices := Indices empty_document @ [0, 1, 2, 3]\<rparr>"
    by (simp add: empty_document_def)
  moreover have "length [0, 1, 2, 3 :: int] = length [''1/1/1'', ''2/2/2'', ''3/3/3'', ''4/4/4'']"
    by simp
  ultimately have "parse_indices 4300 [''1/1/1'', ''2/2/2'', ''3/3/3'', ''4/4/4''] empty_document =
     Inr (empty_document\<lparr>Indices := [0, 1, 2, 3]\<rparr>)"
    using inst by blast
  moreover have "files (env_of ''f 1/1/1 2/2/2 3/3/3'') ''mesh.obj'' = Some ''f 1/1/1 2/2/2 3/3/3''"
    by (simp add: env_of_def)
  with inst have "fst (parse_mesh (env_of ''f 1/1/1 2/2/2 3/3/3'') ''mesh.obj'') =
     Inr \<lparr>Vertices = [], Indices = [0, 1, 2], UVs = [], PrimitiveType = 4\<rparr>"
    by blast
  ultimately show ?thesis by (rule conjI)
qed

lemma parse_loop_filter:
  "parse_loop m ls parsed = parse_loop m (filter recognized ls) parsed"
proof (induction ls arbitrary: parsed)
  case Nil
  show ?case by simp
next
  case (Cons l ls)
  show ?case
  proof (cases "recognized l")
    case True
    then show ?thesis by (simp add: Cons.IH split: sum.splits)
  next
    case False
    then have "loop_body m l parsed = Inr parsed"
      by (simp add: loop_body_marker recognized_def)
    with False show ?thesis by (simp add: Cons.IH)
  qed
qed

text \<open>
  C6. A line whose leading token is none of \<open>v\<close>, \<open>vt\<close>, \<open>f\<close> (a blank line, a comment,
  \<open>o ...\<close>, \<open>vn ...\<close>) leaves the document as it is and raises nothing. So the result of
  the loop, the document or the exception, is that of the recognized lines alone, and two
  files with the same recognized lines give the same result under the same limit on the
  digits of an integer.
\<close>

theorem unrecognized_skipped:
  "(\<not> recognized l \<longrightarrow> loop_body m l parsed = Inr parsed) \<and>
   parse_loop m ls parsed = parse_loop m (filter recognized ls) parsed \<and>
   (files env path = Some content \<and> files env' path' = Some content' \<and>
    int_max_str_digits env = int_max_str_digits env' \<and>
    filter recognized (file_lines content) = filter recognized (file_lines content') \<longrightarrow>
      fst (parse_mesh env path) = fst (parse_mesh env' path'))"
proof -
  have 1: "loop_body m l parsed = Inr parsed" if "\<not> recognized l"
    using that by (simp add: loop_body_marker recognized_def)
  have 3: "fst (parse_mesh env path) = fst (parse_mesh env' path')"
    if "files env path = Some content" "files env' path' = Some content'"
      "int_max_str_digits env = int_max_str_digits env'"
      "filter recognized (file_lines content) = filter recognized (file_lines content')"
    using that parse_loop_filter [of "int_max_str_digits env" "file_lines content" empty_document]
      parse_loop_filter [of "int_max_str_digits env" "file_lines content'" empty_document]
    by (simp add: parse_mesh_reads)
  from 1 3 parse_loop_filter show ?thesis by blast
qed

theorem unrecognized_skipped_witness:
  "loop_body 4300 [] empty_document = Inr empty_document \<and>
   loop_body 4300 ''# comment'' empty_document = Inr empty_document \<and>
   loop_body 4300 ''o ObjectName'' empty_document = Inr empty_document \<and>
   loop_body 4300 ''vn 0 0 1'' empty_document = Inr empty_document \<and>
   fst (parse_mesh (env_of (''# comment'' @ LF @ ''o ObjectName'' @ LF @ ''v 1 2 3'' @ LF @ LF @ ''vn 0 0 1'' @ LF)) ''mesh.obj'') =
   fst (parse_mesh (env_of (''v 1 2 3'' @ LF)) ''mesh.obj'')"
proof -
  have n: "\<not> recognized []" "\<not> recognized ''# comment''" "\<not> recognized ''o ObjectName''"
    "\<not> recognized ''vn 0 0 1''"
    by (simp_all add: recognized_def marker_def tokens_def builtin_defs)
  have f: "filter recognized (file_lines (''# comment'' @ LF @ ''o ObjectName'' @ LF @ ''v 1 2 3'' @ LF @ LF @ ''vn 0 0 1'' @ LF)) =
      filter recognized (file_lines (''v 1 2 3'' @ LF))"
    by (simp add: file_lines_def LF_def recognized_def marker_def tokens_def builtin_defs)
  have e: "files (env_of c) ''mesh.obj'' = Some c"
    "int_max_str_digits (env_of c) = int_max_str_digits (env_of c')" for c c'
    by (simp_all add: env_of_def)
  note inst = unrecognized_skipped [where parsed = empty_document]
  from inst n(1) have "loop_body 4300 [] empty_document = Inr empty_document" by blast
  moreover from inst n(2) have "loop_body 4300 ''# comment'' empty_document = Inr empty_document" by blast
  moreover from inst n(3) have "loop_body 4300 ''o ObjectName'' empty_document = Inr empty_document" by blast
  moreover from inst n(4) have "loop_body 4300 ''vn 0 0 1'' empty_document = Inr empty_document" by blast
  moreover from inst e f have "fst (parse_mesh (env_of (''# comment'' @ LF @ ''o ObjectName'' @ LF @ ''v 1 2 3'' @ LF @ LF @ ''vn 0 0 1'' @ LF)) ''mesh.obj'') =
   fst (parse_mesh (env_of (''v 1 2 3'' @ LF)) ''mesh.obj'')"
    by blast
  ultimately show ?thesis by blast
qed

text \<open>
  C3. When the loop succeeds, the vertices appended are, one for one and in file order,
  the vertices of the lines with marker \<open>v\<close>, whatever lines stand between them; the
  same for the UVs and the \<open>vt\<close> lines, and the indices appended are those of the \<open>f\<close>
  lines, line after line. For a file, \<open>Vertices[i]\<close> is the vertex of the \<open>i\<close>-th \<open>v\<close>
  line. Nothing is reordered, merged or dropped, and an index is not compared with the
  number of vertices: the file \<open>f 7 8 9\<close> is accepted and gives \<open>[6, 7, 8]\<close> with no
  vertex at all.
\<close>

theorem file_order_kept:
  "(parse_loop m ls parsed = Inr parsed' \<longrightarrow>
      (\<exists>vs us kss.
         list_all2 is_vertex_of (lines_with ''v'' ls) vs \<and>
         Vertices parsed' = Vertices parsed @ vs \<and>
         list_all2 is_uv_of (lines_with ''vt'' ls) us \<and>
         UVs parsed' = UVs parsed @ us \<and>
         list_all2 (are_indices_of m) (lines_with ''f'' ls) kss \<and>
         Indices parsed' = Indices parsed @ concat kss)) \<and>
   (files env path = Some content \<and> fst (parse_mesh env path) = Inr d \<longrightarrow>
      list_all2 is_vertex_of (lines_with ''v'' (file_lines content)) (Vertices d) \<and>
      list_all2 is_uv_of (lines_with ''vt'' (file_lines content)) (UVs d) \<and>
      (\<exists>kss. list_all2 (are_indices_of (int_max_str_digits env)) (lines_with ''f'' (file_lines content)) kss \<and>
             Indices d = concat kss) \<and>
      length (Vertices d) = length (lines_with ''v'' (file_lines content)) \<and>
      (\<forall>i < length (Vertices d).
         is_vertex_of (lines_with ''v'' (file_lines content) ! i) (Vertices d ! i))) \<and>
   (files env path = Some ''f 7 8 9'' \<longrightarrow>
      fst (parse_mesh env path) =
        Inr \<lparr>Vertices = [], Indices = [6, 7, 8], UVs = [], PrimitiveType = 4\<rparr>)"
proof -
  have 1: "\<exists>vs us kss.
         list_all2 is_vertex_of (lines_with ''v'' ls) vs \<and>
         Vertices parsed' = Vertices parsed @ vs \<and>
         list_all2 is_uv_of (lines_with ''vt'' ls) us \<and>
         UVs parsed' = UVs parsed @ us \<and>
         list_all2 (are_indices_of m) (lines_with ''f'' ls) kss \<and>
         Indices parsed' = Indices parsed @ concat kss"
    if "parse_loop m ls parsed = Inr parsed'" for m ls parsed parsed'
    using parse_loop_Vertices [OF that] parse_loop_UVs [OF that] parse_loop_Indices [OF that]
    by blast
  have 2: "list_all2 is_vertex_of (lines_with ''v'' (file_lines content)) (Vertices d) \<and>
      list_all2 is_uv_of (lines_with ''vt'' (file_lines content)) (UVs d) \<and>
      (\<exists>kss. list_all2 (are_indices_of (int_max_str_digits env)) (lines_with ''f'' (file_lines content)) kss \<and>
             Indices d = concat kss) \<and>
      length (Vertices d) = length (lines_with ''v'' (file_lines content)) \<and>
      (\<forall>i < length (Vertices d).
         is_vertex_of (lines_with ''v'' (file_lines content) ! i) (Vertices d ! i))"
    if f: "files env path = Some content" and r: "fst (parse_mesh env path) = Inr d"
  proof -
    from f r have l: "parse_loop (int_max_str_digits env) (file_lines content) empty_document = Inr d"
      by (simp add: parse_mesh_reads)
    from 1 [OF l] obtain vs us kss where
      a: "list_all2 is_vertex_of (lines_with ''v'' (file_lines content)) vs"
        "Vertices d = Vertices empty_document @ vs"
        "list_all2 is_uv_of (lines_with ''vt'' (file_lines content)) us"
        "UVs d = UVs empty_document @ us"
        "list_all2 (are_indices_of (int_max_str_digits env)) (lines_with ''f'' (file_lines content)) kss"
        "Indices d = Indices empty_document @ concat kss"
      by blast
    then have b: "Vertices d = vs" "UVs d = us" "Indices d = concat kss"
      by (simp_all add: empty_document_def)
    with a have v: "list_all2 is_vertex_of (lines_with ''v'' (file_lines content)) (Vertices d)"
      by simp
    from v have "length (Vertices d) = length (lines_with ''v'' (file_lines content))"
      by (simp add: list_all2_lengthD)
    moreover from v have "\<forall>i < length (Vertices d).
         is_vertex_of (lines_with ''v'' (file_lines content) ! i) (Vertices d ! i)"
      by (simp add: list_all2_conv_all_nth)
    ultimately show ?thesis
      using a b v by auto
  qed
  have "parse_loop (int_max_str_digits env) (file_lines ''f 7 8 9'') empty_document =
      Inr \<lparr>Vertices = [], Indices = [6, 7, 8], UVs = [], PrimitiveType = 4\<rparr>"
    by (simp add: builtin_defs parser_defs empty_document_def)
  then have 3: "fst (parse_mesh env path) =
        Inr \<lparr>Vertices = [], Indices = [6, 7, 8], UVs = [], PrimitiveType = 4\<rparr>"
    if "files env path = Some ''f 7 8 9''"
    using that by (simp add: parse_mesh_reads)
  from 1 [of m ls parsed parsed'] 2 3 show ?thesis by blast
qed

lemma mixed_run: "parse_loop (int_max_str_digits env) (file_lines mixed_file) empty_document = Inr mixed_document"
  by (simp add: mixed_file_def mixed_document_def LF_def builtin_defs parser_defs
      empty_document_def)

theorem file_order_kept_witness:
  "fst (parse_mesh (env_of mixed_file) ''mesh.obj'') = Inr mixed_document \<and>
   lines_with ''v'' (file_lines mixed_file) = [''v 1 2 3'' @ LF, ''v 1 2 3'' @ LF, ''v 4 5 6''] \<and>
   list_all2 is_vertex_of (lines_with ''v'' (file_lines mixed_file)) (Vertices mixed_document) \<and>
   length (Vertices mixed_document) = length (lines_with ''v'' (file_lines mixed_file))"
proof -
  have f: "files (env_of mixed_file) ''mesh.obj'' = Some mixed_file"
    by (simp add: env_of_def)
  then have r: "fst (parse_mesh (env_of mixed_file) ''mesh.obj'') = Inr mixed_document"
    by (simp add: parse_mesh_reads mixed_run)
  have l: "lines_with ''v'' (file_lines mixed_file) =
      [''v 1 2 3'' @ LF, ''v 1 2 3'' @ LF, ''v 4 5 6'']"
    by (simp add: mixed_file_def LF_def file_lines_def lines_with_def marker_def tokens_def
        builtin_defs)
  from f r file_order_kept [where env = "env_of mixed_file" and path = "''mesh.obj''"
      and content = mixed_file and d = mixed_document]
  have "list_all2 is_vertex_of (lines_with ''v'' (file_lines mixed_file)) (Vertices mixed_document)"
    "length (Vertices mixed_document) = length (lines_with ''v'' (file_lines mixed_file))"
    by blast+
  with r l show ?thesis by blast
qed

lemma main_fails:
  assumes "length argv = 3" and "py_last (suffixes (argv ! 1)) = Inr ''.obj''"
    and "files env (argv ! 1) = Some content"
    and "first_error (int_max_str_digits env) (file_lines content) = Some e"
  shows "main env argv = (Inl e, [Open_read (argv ! 1)])"
  using assms parse_loop_Inl [of "int_max_str_digits env" "file_lines content" empty_document e]
  by (simp add: main_reads)

lemma line_error_kind:
  "line_error m l = Some e \<Longrightarrow> e = ValueError \<or> (e = IndexError \<and> short_line l)"
  by (auto simp: line_error_def split: if_splits)

lemma writes_need_document:
  assumes "list_ex writes_files (snd (main env argv))"
  shows "\<exists>d. fst (parse_mesh env (argv ! 1)) = Inr d \<and>
             (written_docs (snd (main env argv)) = [] \<or> written_docs (snd (main env argv)) = [d])"
  using assms
  by (auto simp: main_def parse_mesh_def Let_def
      split: if_splits sum.splits option.splits)

text \<open>
  C2. If some line of the input file is a recognized line with a numeric field that
  \<open>float\<close> or \<open>int\<close> rejects, the run ends with the exception of the first line that
  raises, and its only effect is that the input file was opened: nothing is printed, the
  output is neither opened nor written. That exception is \<open>ValueError\<close>, unless an
  earlier vertex or UV line has too few tokens and raised \<open>IndexError\<close>. In every
  run, an effect on the output file means that \<open>parse_mesh\<close> had returned a complete
  document, and only that document is written.
\<close>

theorem bad_field_aborts:
  "(length argv = 3 \<and> py_last (suffixes (argv ! 1)) = Inr ''.obj'' \<and>
    files env (argv ! 1) = Some content \<and> l \<in> set (file_lines content) \<and> bad_field (int_max_str_digits env) l \<longrightarrow>
      (\<exists>e. main env argv = (Inl e, [Open_read (argv ! 1)]) \<and>
           first_error (int_max_str_digits env) (file_lines content) = Some e \<and>
           (e = ValueError \<or> e = IndexError) \<and>
           ((\<forall>l' \<in> set (file_lines content). \<not> short_line l') \<longrightarrow> e = ValueError))) \<and>
   (list_ex writes_files (snd (main env argv)) \<longrightarrow>
      (\<exists>d. fst (parse_mesh env (argv ! 1)) = Inr d \<and>
           (written_docs (snd (main env argv)) = [] \<or>
            written_docs (snd (main env argv)) = [d])))"
proof (intro conjI impI)
  assume a: "length argv = 3 \<and> py_last (suffixes (argv ! 1)) = Inr ''.obj'' \<and>
    files env (argv ! 1) = Some content \<and> l \<in> set (file_lines content) \<and> bad_field (int_max_str_digits env) l"
  then have "line_error (int_max_str_digits env) l \<noteq> None"
    by (simp add: line_error_def)
  with a obtain e where e: "first_error (int_max_str_digits env) (file_lines content) = Some e"
    using first_error_exists by blast
  with a have m: "main env argv = (Inl e, [Open_read (argv ! 1)])"
    by (simp add: main_fails)
  from first_error_member [OF e] obtain l' where l': "l' \<in> set (file_lines content)"
    "line_error (int_max_str_digits env) l' = Some e"
    by blast
  from line_error_kind [OF l'(2)] l'(1)
  have "e = ValueError \<or> e = IndexError"
    "(\<forall>l' \<in> set (file_lines content). \<not> short_line l') \<longrightarrow> e = ValueError"
    by blast+
  with m e show "\<exists>e. main env argv = (Inl e, [Open_read (argv ! 1)]) \<and>
           first_error (int_max_str_digits env) (file_lines content) = Some e \<and>
           (e = ValueError \<or> e = IndexError) \<and>
           ((\<forall>l' \<in> set (file_lines content). \<not> short_line l') \<longrightarrow> e = ValueError)"
    by blast
next
  assume "list_ex writes_files (snd (main env argv))"
  then show "\<exists>d. fst (parse_mesh env (argv ! 1)) = Inr d \<and>
           (written_docs (snd (main env argv)) = [] \<or>
            written_docs (snd (main env argv)) = [d])"
    by (rule writes_need_document)
qed

theorem bad_field_aborts_witness:
  "main (env_of (''v 1 2 3'' @ LF @ ''v a 2.0 3.0'' @ LF @ ''f 1'')) example_argv =
     (Inl ValueError, [Open_read ''mesh.obj''])"
proof -
  let ?c = "''v 1 2 3'' @ LF @ ''v a 2.0 3.0'' @ LF @ ''f 1''"
  have ls: "file_lines ?c = [''v 1 2 3'' @ LF, ''v a 2.0 3.0'' @ LF, ''f 1'']"
    by (simp add: file_lines_def LF_def)
  have b: "bad_field m (''v a 2.0 3.0'' @ LF)" for m
    by (simp add: LF_def bad_field_def valid_float_def marker_def tokens_def fields_def
        builtin_defs)
  have s: "\<forall>l' \<in> set (file_lines ?c). \<not> short_line l'"
    unfolding ls
    by (simp add: LF_def short_line_def marker_def tokens_def fields_def builtin_defs)
  have m: "''v a 2.0 3.0'' @ LF \<in> set (file_lines ?c)"
    unfolding ls by simp
  from bad_field_aborts [where argv = example_argv and env = "env_of ?c" and content = ?c
      and l = "''v a 2.0 3.0'' @ LF"] example_ok b s m
  obtain e where "main (env_of ?c) example_argv = (Inl e, [Open_read (example_argv ! 1)])"
    "e = ValueError"
    by blast
  then show ?thesis by (simp add: example_argv_def)
qed

lemma short_line_error:
  assumes "short_line l"
  shows "line_error m l = Some (if list_all valid_float (fields l) then IndexError else ValueError)"
proof -
  from assms have "take 3 (fields l) = fields l" if "marker l = ''v''"
    using that by (auto simp: short_line_def)
  moreover from assms have "take 2 (fields l) = fields l" if "marker l = ''vt''"
    using that by (auto simp: short_line_def)
  ultimately show ?thesis
    using assms
    by (auto simp: line_error_def bad_field_def short_line_def list_ex_not)
qed

lemma first_error_append:
  "first_error m pre = None \<Longrightarrow> first_error m (pre @ l # post) = (case line_error m l of
     None \<Rightarrow> first_error m post | Some e \<Rightarrow> Some e)"
proof (induction pre)
  case Nil
  show ?case by (simp add: first_error_def split: option.splits)
next
  case (Cons a pre)
  from Cons.prems have "line_error m a = None"
    by (auto simp: first_error_def split: if_splits)
  then have "first_error m (a # xs) = first_error m xs" for xs
    by (simp add: first_error_def)
  with Cons show ?case by simp
qed

text \<open>
  C9, as the code has it. A vertex line with fewer than 3 tokens after the marker, or a
  UV line with fewer than 2, always raises: \<open>IndexError\<close> when every token that is
  there is a valid float, and \<open>ValueError\<close> when one of them is not, since the tokens are
  converted one by one before the next is read. A run over a file with such a line ends
  with the exception of the first line that raises, having only opened the input file; if
  the lines before raise nothing and every token of the short line is a valid float, the
  run ends with \<open>IndexError\<close>.
\<close>

theorem short_line_aborts:
  "(short_line l \<longrightarrow>
      loop_body m l parsed =
        Inl (if list_all valid_float (fields l) then IndexError else ValueError)) \<and>
   (length argv = 3 \<and> py_last (suffixes (argv ! 1)) = Inr ''.obj'' \<and>
    files env (argv ! 1) = Some content \<and> l \<in> set (file_lines content) \<and> short_line l \<longrightarrow>
      (\<exists>e. main env argv = (Inl e, [Open_read (argv ! 1)]) \<and>
           first_error (int_max_str_digits env) (file_lines content) = Some e \<and>
           (e = IndexError \<or> e = ValueError))) \<and>
   (length argv = 3 \<and> py_last (suffixes (argv ! 1)) = Inr ''.obj'' \<and>
    files env (argv ! 1) = Some content \<and> file_lines content = pre @ l # post \<and>
    first_error (int_max_str_digits env) pre = None \<and> short_line l \<and> list_all valid_float (fields l) \<longrightarrow>
      main env argv = (Inl IndexError, [Open_read (argv ! 1)]))"
proof (intro conjI impI)
  assume "short_line l"
  from short_line_error [OF this]
  show "loop_body m l parsed =
        Inl (if list_all valid_float (fields l) then IndexError else ValueError)"
    by (simp add: loop_body_Inl)
next
  assume a: "length argv = 3 \<and> py_last (suffixes (argv ! 1)) = Inr ''.obj'' \<and>
    files env (argv ! 1) = Some content \<and> l \<in> set (file_lines content) \<and> short_line l"
  then have "line_error (int_max_str_digits env) l \<noteq> None"
    using short_line_error [of l "int_max_str_digits env"] by simp
  with a obtain e where e: "first_error (int_max_str_digits env) (file_lines content) = Some e"
    using first_error_exists by blast
  with a have m: "main env argv = (Inl e, [Open_read (argv ! 1)])"
    by (simp add: main_fails)
  from first_error_member [OF e] obtain l' where "line_error (int_max_str_digits env) l' = Some e"
    by blast
  from line_error_kind [OF this] have "e = IndexError \<or> e = ValueError"
    by blast
  with m e show "\<exists>e. main env argv = (Inl e, [Open_read (argv ! 1)]) \<and>
           first_error (int_max_str_digits env) (file_lines content) = Some e \<and>
           (e = IndexError \<or> e = ValueError)"
    by blast
next
  assume a: "length argv = 3 \<and> py_last (suffixes (argv ! 1)) = Inr ''.obj'' \<and>
    files env (argv ! 1) = Some content \<and> file_lines content = pre @ l # post \<and>
    first_error (int_max_str_digits env) pre = None \<and> short_line l \<and> list_all valid_float (fields l)"
  then have "line_error (int_max_str_digits env) l = Some IndexError"
    using short_line_error [of l "int_max_str_digits env"] by simp
  with a have "first_error (int_max_str_digits env) (file_lines content) = Some IndexError"
    by (simp add: first_error_append)
  with a show "main env argv = (Inl IndexError, [Open_read (argv ! 1)])"
    by (simp add: main_fails)
qed

theorem short_line_aborts_witness:
  "loop_body 4300 ''v 1.0 2.0'' empty_document = Inl IndexError \<and>
   loop_body 4300 ''vt 0.5'' empty_document = Inl IndexError \<and>
   loop_body 4300 ''v 1.0 x'' empty_document = Inl ValueError \<and>
   main (env_of (''# two tokens'' @ LF @ ''v 1.0 2.0'' @ LF)) example_argv =
     (Inl IndexError, [Open_read ''mesh.obj''])"
proof -
  let ?c = "''# two tokens'' @ LF @ ''v 1.0 2.0'' @ LF"
  have s: "short_line ''v 1.0 2.0''" "short_line ''vt 0.5''" "short_line ''v 1.0 x''"
    "short_line (''v 1.0 2.0'' @ LF)"
    by (simp_all add: LF_def short_line_def marker_def tokens_def fields_def builtin_defs)
  have v: "list_all valid_float (fields ''v 1.0 2.0'')" "list_all valid_float (fields ''vt 0.5'')"
    "\<not> list_all valid_float (fields ''v 1.0 x'')"
    "list_all valid_float (fields (''v 1.0 2.0'' @ LF))"
    by (simp_all add: LF_def valid_float_def tokens_def fields_def builtin_defs)
  have ls: "file_lines ?c = [''# two tokens'' @ LF] @ (''v 1.0 2.0'' @ LF) # []"
    by (simp add: file_lines_def LF_def)
  have p: "first_error m [''# two tokens'' @ LF] = None" for m
    by (simp add: LF_def first_error_def line_error_def bad_field_def short_line_def
        marker_def tokens_def builtin_defs)
  from short_line_aborts [where l = "''v 1.0 2.0''" and parsed = empty_document] s(1) v(1)
  have 1: "loop_body 4300 ''v 1.0 2.0'' empty_document = Inl IndexError"
    by simp
  from short_line_aborts [where l = "''vt 0.5''" and parsed = empty_document] s(2) v(2)
  have 2: "loop_body 4300 ''vt 0.5'' empty_document = Inl IndexError"
    by simp
  from short_line_aborts [where l = "''v 1.0 x''" and parsed = empty_document] s(3) v(3)
  have 3: "loop_body 4300 ''v 1.0 x'' empty_document = Inl ValueError"
    by simp
  from short_line_aborts [where l = "''v 1.0 2.0'' @ LF" and argv = example_argv
      and env = "env_of ?c" and content = ?c and pre = "[''# two tokens'' @ LF]" and post = "[]"]
    example_ok s(4) v(4) ls p
  have "main (env_of ?c) example_argv = (Inl IndexError, [Open_read (example_argv ! 1)])"
    by blast
  then have 4: "main (env_of ?c) example_argv = (Inl IndexError, [Open_read ''mesh.obj''])"
    by (simp add: example_argv_def)
  from 1 2 3 4 show ?thesis by blast
qed

text \<open>
  C9 as the specification states it, with \<open>IndexError\<close> for every short line, does not
  hold: the line \<open>v a\<close> has one token after the marker, and the run ends with
  \<open>ValueError\<close> from \<open>float("a")\<close>, not with \<open>IndexError\<close>.
\<close>

theorem short_line_value_error:
  "short_line ''v a'' \<and>
   main (env_of ''v a'') example_argv = (Inl ValueError, [Open_read ''mesh.obj'']) \<and>
   fst (main (env_of ''v a'') example_argv) \<noteq> Inl IndexError"
proof -
  have s: "short_line ''v a''"
    by (simp add: short_line_def marker_def tokens_def fields_def builtin_defs)
  have "parse_loop (int_max_str_digits (env_of ''v a'')) (file_lines ''v a'') empty_document =
      Inl ValueError"
    by (simp add: builtin_defs parser_defs empty_document_def)
  then have "main (env_of ''v a'') example_argv = (Inl ValueError, [Open_read ''mesh.obj''])"
    using main_reads [OF example_ok(1,2,3), of "''v a''"]
    by (simp add: example_argv_def)
  with s show ?thesis by simp
qed





















end
